theory Spec2Isabelle
  imports Complex_Main
begin

section \<open>Values of the quote payload\<close>

text \<open>
  The fields \<open>c\<close> (current price), \<open>d\<close> (change) and \<open>dp\<close> (percent change) of a quote
  are JavaScript numbers when present: a finite number, \<open>Infinity\<close> or \<open>-Infinity\<close> (what
  parsing a JSON number such as \<open>1e309\<close> gives), \<open>NaN\<close>, or the field is absent
  (\<open>undefined\<close>). On the JSON wire between the backend and the dashboard \<open>NaN\<close> and the
  two infinities are written as \<open>null\<close>. The code only ever tests these values for
  truthiness, chooses between them with \<open>||\<close> and compares one with zero.
\<close>

datatype jsval = JUndefined | JNull | JNaN | JNum real | JPosInf | JNegInf

fun truthy :: "jsval \<Rightarrow> bool" where
  "truthy (JNum x) = (x \<noteq> 0)"
| "truthy JUndefined = False"
| "truthy JNull = False"
| "truthy JNaN = False"
| "truthy JPosInf = True"
| "truthy JNegInf = True"

text \<open>\<open>a || b\<close>\<close>

definition js_or :: "jsval \<Rightarrow> jsval \<Rightarrow> jsval" where
  "js_or a b = (if truthy a then a else b)"

text \<open>\<open>v < 0\<close>: \<open>undefined\<close> and \<open>NaN\<close> compare false, \<open>null\<close> counts as zero.\<close>

fun js_negative :: "jsval \<Rightarrow> bool" where
  "js_negative (JNum x) = (x < 0)"
| "js_negative JUndefined = False"
| "js_negative JNull = False"
| "js_negative JNaN = False"
| "js_negative JPosInf = False"
| "js_negative JNegInf = True"

text \<open>A JavaScript string used as a condition: only the empty string is falsy.\<close>

definition truthy_str :: "string option \<Rightarrow> bool" where
  "truthy_str s = (case s of None \<Rightarrow> False | Some t \<Rightarrow> t \<noteq> [])"

record quote_data =
  data_c :: jsval
  data_d :: jsval
  data_dp :: jsval

text \<open>One element of the \<open>quotes\<close> array: \<open>{symbol, data}\<close> or \<open>{symbol, error}\<close>.\<close>

record quote_entry =
  symbol :: string
  data :: "quote_data option"
  error :: "string option"

section \<open>Backend: \<open>POST /quotes\<close> (finnhubRoutes.js)\<close>

subsection \<open>The upstream client\<close>

text \<open>
  \<open>finnhubClient.quote(symbol, callback)\<close> either invokes the callback some milliseconds
  after the call, with an error (an object with a \<open>message\<close> string) or with a payload
  (\<open>None\<close> when \<open>data\<close> is null or undefined), or never invokes it. The behaviour of the
  \<open>i\<close>-th call of a request on symbol \<open>s\<close> is \<open>env i s\<close>. Console output is not
  modelled.
\<close>

datatype reply = Failed string | Payload "quote_data option"

datatype upstream = Replies nat reply | Silent

type_synonym upstream_env = "nat \<Rightarrow> string \<Rightarrow> upstream"

subsection \<open>One guarded lookup (lines 96-116)\<close>

definition timeout_entry :: "string \<Rightarrow> quote_entry" where
  "timeout_entry s = \<lparr>symbol = s, data = None, error = Some ''Request timeout''\<rparr>"

definition no_price_entry :: "string \<Rightarrow> quote_entry" where
  "no_price_entry s = \<lparr>symbol = s, data = None, error = Some ''No price data available''\<rparr>"

text \<open>The callback given to \<open>finnhubClient.quote\<close>: what the promise resolves to.\<close>

definition on_reply :: "string \<Rightarrow> reply \<Rightarrow> quote_entry" where
  "on_reply s r =
     (case r of
        Failed msg \<Rightarrow>
          \<lparr>symbol = s, data = None,
           error = Some (if msg \<noteq> [] then msg else ''Failed to fetch'')\<rparr>
      | Payload None \<Rightarrow> no_price_entry s
      | Payload (Some q) \<Rightarrow>
          if truthy (data_c q) then \<lparr>symbol = s, data = Some q, error = None\<rparr>
          else no_price_entry s)"

text \<open>
  The promise of one symbol: the time at which it resolves and the value it resolves to.
  The timer is registered before the upstream call is issued, so it wins a tie; once the
  promise is resolved a later \<open>resolve\<close> has no effect.
\<close>

definition guard :: "nat \<Rightarrow> string \<Rightarrow> upstream \<Rightarrow> nat \<times> quote_entry" where
  "guard perItemMs s u =
     (case u of
        Silent \<Rightarrow> (perItemMs, timeout_entry s)
      | Replies t r \<Rightarrow>
          if t < perItemMs then (t, on_reply s r) else (perItemMs, timeout_entry s))"

definition quotePromises :: "nat \<Rightarrow> upstream_env \<Rightarrow> string list \<Rightarrow> (nat \<times> quote_entry) list" where
  "quotePromises perItemMs env symbols =
     map (\<lambda>(i, s). guard perItemMs s (env i s)) (enumerate 0 symbols)"

subsection \<open>The race against the overall timer (lines 120-123)\<close>

text \<open>\<open>Promise.all\<close> resolves when the last promise has resolved.\<close>

definition join_time :: "(nat \<times> quote_entry) list \<Rightarrow> nat" where
  "join_time ps = foldr max (map fst ps) 0"

text \<open>
  \<open>Promise.race\<close>: \<open>None\<close> is the \<open>null\<close> of the overall timer. That timer is registered
  after every per-symbol timer, so the join wins a tie.
\<close>

definition race :: "nat \<Rightarrow> (nat \<times> quote_entry) list \<Rightarrow> quote_entry list option" where
  "race overallMs ps = (if join_time ps \<le> overallMs then Some (map snd ps) else None)"

subsection \<open>The route handler (lines 76-138)\<close>

text \<open>
  \<open>req.body.symbols\<close> as the handler tests it: a falsy value (the field is missing, or
  null, \<open>0\<close>, \<open>""\<close>, \<open>false\<close>), a truthy value that is not an array, or an array of symbols.
  The request body itself may be absent (\<open>None\<close>).
\<close>

datatype symbols_field = Falsy | NonArray | Array "string list"

record http_response =
  status :: nat
  body_error :: "string option"
  quotes :: "quote_entry list option"

definition unavailable :: "string list \<Rightarrow> http_response" where
  "unavailable xs =
     \<lparr>status = 503, body_error = Some ''Finnhub API key not configured'',
      quotes = Some (map (\<lambda>s. \<lparr>symbol = s, data = None, error = Some ''API key not configured''\<rparr>) xs)\<rparr>"

definition bad_request :: http_response where
  "bad_request = \<lparr>status = 400, body_error = Some ''Symbols array is required'', quotes = None\<rparr>"

definition gateway_timeout :: "string list \<Rightarrow> http_response" where
  "gateway_timeout xs =
     \<lparr>status = 504, body_error = Some ''Request timeout'', quotes = Some (map timeout_entry xs)\<rparr>"

definition ok :: "quote_entry list \<Rightarrow> http_response" where
  "ok results = \<lparr>status = 200, body_error = None, quotes = Some results\<rparr>"

text \<open>The \<open>catch\<close> of the handler; the text of \<open>details\<close> is left out.\<close>

definition internal_error :: http_response where
  "internal_error = \<lparr>status = 500, body_error = Some ''Internal server error'', quotes = None\<rparr>"

text \<open>
  The handler, for a per-symbol delay and an overall delay. It returns the response and
  the symbols for which \<open>finnhubClient.quote\<close> was called, in order. \<open>hasClient\<close> says
  that \<open>finnhubClient\<close> is not null.

  Without a client, \<open>(symbols || []).map\<close> throws on a truthy value that is not an array;
  with a client, destructuring an absent body throws. Both end in the \<open>catch\<close>.
\<close>

definition quotes_handler ::
  "nat \<Rightarrow> nat \<Rightarrow> bool \<Rightarrow> symbols_field option \<Rightarrow> upstream_env \<Rightarrow> http_response \<times> string list" where
  "quotes_handler perItemMs overallMs hasClient body env =
     (if \<not> hasClient then
        (case (case body of None \<Rightarrow> Array [] | Some f \<Rightarrow> f) of
           Falsy \<Rightarrow> (unavailable [], [])
         | NonArray \<Rightarrow> (internal_error, [])
         | Array xs \<Rightarrow> (unavailable xs, []))
      else
        (case body of
           None \<Rightarrow> (internal_error, [])
         | Some Falsy \<Rightarrow> (bad_request, [])
         | Some NonArray \<Rightarrow> (bad_request, [])
         | Some (Array xs) \<Rightarrow>
             if length xs = 0 then (bad_request, [])
             else
               (case race overallMs (quotePromises perItemMs env xs) of
                  None \<Rightarrow> (gateway_timeout xs, xs)
                | Some results \<Rightarrow> (ok results, xs))))"

text \<open>The route as deployed: 2 seconds per request, 3 seconds overall.\<close>

definition post_quotes :: "bool \<Rightarrow> symbols_field option \<Rightarrow> upstream_env \<Rightarrow> http_response \<times> string list" where
  "post_quotes = quotes_handler 2000 3000"

section \<open>Dashboard: the polling client (WatchList.jsx)\<close>

subsection \<open>The symbols of one cycle (line 40)\<close>

text \<open>
  The static \<open>watchlist\<close> table is imported from the data module and is a parameter here;
  polling reads only the \<open>name\<close> of each stock.
\<close>

record stock =
  name :: string

text \<open>\<open>[...new Set(xs)]\<close>: the elements of \<open>xs\<close> in the order of their first occurrence.\<close>

definition set_add :: "'a list \<Rightarrow> 'a \<Rightarrow> 'a list" where
  "set_add seen x = (if x \<in> set seen then seen else seen @ [x])"

definition js_Set :: "'a list \<Rightarrow> 'a list" where
  "js_Set xs = foldl set_add [] xs"

definition poll_symbols :: "stock list \<Rightarrow> string list" where
  "poll_symbols watchlist = take 10 (js_Set (map name watchlist))"

subsection \<open>Building the price map (lines 56-70)\<close>

record live_price =
  price :: jsval
  change :: jsval
  percentChange :: jsval
  isDown :: bool

text \<open>
  \<open>priceMap\<close> and \<open>livePrices\<close> are objects used as dictionaries keyed by symbol. Symbols
  are taken to be ordinary property names (an assignment to \<open>__proto__\<close> would not create
  a key).
\<close>

type_synonym price_map = "string \<rightharpoonup> live_price"

definition to_live_price :: "quote_data \<Rightarrow> live_price" where
  "to_live_price q =
     \<lparr>price = js_or (data_c q) (JNum 0),
      change = js_or (data_d q) (JNum 0),
      percentChange = js_or (data_dp q) (JNum 0),
      isDown = js_negative (js_or (data_d q) (JNum 0))\<rparr>"

text \<open>The test \<open>data && !error && data.c\<close> of the loop body.\<close>

definition is_success :: "quote_entry \<Rightarrow> bool" where
  "is_success q =
     (case data q of
        None \<Rightarrow> False
      | Some qd \<Rightarrow> \<not> truthy_str (error q) \<and> truthy (data_c qd))"

text \<open>The body of \<open>forEach\<close>, on the pair of \<open>priceMap\<close> and \<open>successCount\<close>.\<close>

definition forEach_body :: "price_map \<times> nat \<Rightarrow> quote_entry \<Rightarrow> price_map \<times> nat" where
  "forEach_body acc q =
     (case data q of
        None \<Rightarrow> acc
      | Some qd \<Rightarrow>
          if \<not> truthy_str (error q) \<and> truthy (data_c qd)
          then ((fst acc)(symbol q \<mapsto> to_live_price qd), Suc (snd acc))
          else acc)"

definition build_priceMap :: "quote_entry list \<Rightarrow> price_map \<times> nat" where
  "build_priceMap qs = foldl forEach_body (Map.empty, 0) qs"

subsection \<open>One cycle of \<open>fetchLivePrices\<close> (lines 34-87)\<close>

text \<open>
  What \<open>await axios.post\<close> gives: it throws (network error, abort or timeout after 3
  seconds, a status outside 2xx), or it resolves, and then \<open>response.data.quotes\<close> is
  either falsy (\<open>None\<close>) or the list of entries.
\<close>

datatype axios_result = Threw | Response "quote_entry list option"

record watch_state =
  livePrices :: price_map
  isLoadingPrices :: bool
  isMounted :: bool

text \<open>Up to the request (lines 35-37).\<close>

definition begin_fetch :: "watch_state \<Rightarrow> watch_state" where
  "begin_fetch st = (if \<not> isMounted st then st else st\<lparr>isLoadingPrices := True\<rparr>)"

text \<open>From the arrival of the response (or of the exception) to the end of \<open>finally\<close>.\<close>

definition finish_fetch :: "axios_result \<Rightarrow> watch_state \<Rightarrow> watch_state" where
  "finish_fetch r st =
     (let st1 =
        (case r of
           Threw \<Rightarrow> st
         | Response None \<Rightarrow> st
         | Response (Some qs) \<Rightarrow>
             if isMounted st then
               (if 0 < snd (build_priceMap qs)
                then st\<lparr>livePrices := fst (build_priceMap qs)\<rparr> else st)
             else st)
      in if isMounted st1 then st1\<lparr>isLoadingPrices := False\<rparr> else st1)"

definition fetchLivePrices :: "axios_result \<Rightarrow> watch_state \<Rightarrow> watch_state" where
  "fetchLivePrices r st = (if \<not> isMounted st then st else finish_fetch r (begin_fetch st))"

subsection \<open>A polling session (lines 30-104)\<close>

text \<open>
  The effect starts cycles (at once, then from the interval timer), responses arrive, and
  the cleanup clears \<open>isMounted\<close>. Each cycle carries its number in the order of the
  starts; the code keeps no such number, so \<open>step\<close> does not read it.
\<close>

datatype event = Start nat | Arrive nat axios_result | Unmount

fun step :: "watch_state \<Rightarrow> event \<Rightarrow> watch_state" where
  "step st (Start k) = begin_fetch st"
| "step st (Arrive k r) = finish_fetch r st"
| "step st Unmount = st\<lparr>isMounted := False\<rparr>"

definition initial :: watch_state where
  "initial = \<lparr>livePrices = Map.empty, isLoadingPrices = False, isMounted = True\<rparr>"

definition run :: "event list \<Rightarrow> watch_state" where
  "run evs = foldl step initial evs"

text \<open>The quotes of a response that pass the test of the loop body.\<close>

definition successes :: "axios_result \<Rightarrow> quote_entry list" where
  "successes r =
     (case r of
        Threw \<Rightarrow> []
      | Response None \<Rightarrow> []
      | Response (Some qs) \<Rightarrow> filter is_success qs)"

subsection \<open>The clock of a session (lines 44, 49-52, 90-97)\<close>

text \<open>
  What the network does with the request of one cycle: it delivers a result (a response,
  or a failure that makes \<open>axios.post\<close> throw) some milliseconds after the request was
  sent, or it delivers nothing.
\<close>

datatype delivery = Delivers nat axios_result | Nothing

text \<open>
  \<open>await axios.post\<close>, with the clock: the request is aborted by the timer of line 44 and
  timed out by axios (line 51), both after 3000 ms, and then \<open>axios.post\<close> throws; a result
  that would come later is never seen. The timer is registered before the request is sent,
  so it wins a tie. The pair is the time after which the \<open>await\<close> returns or throws, and
  what it gives.
\<close>

definition await_post :: "delivery \<Rightarrow> nat \<times> axios_result" where
  "await_post d =
     (case d of
        Nothing \<Rightarrow> (3000, Threw)
      | Delivers t r \<Rightarrow> if t < 3000 then (t, r) else (3000, Threw))"

text \<open>
  The cycles of a session are numbered from \<open>0\<close>. Cycle \<open>0\<close> starts when the effect runs
  (line 90) and the interval timer starts one more every 10000 ms (lines 93-97): cycle
  \<open>k\<close> starts at \<open>10000 * k\<close>. These are the two events of cycle \<open>k\<close>, with their times.
\<close>

definition cycle_events :: "nat \<Rightarrow> delivery \<Rightarrow> (nat \<times> event) list" where
  "cycle_events k d =
     [(10000 * k, Start k),
      (10000 * k + fst (await_post d), Arrive k (snd (await_post d)))]"

text \<open>The events of a session in the order of their times, for the deliveries of its cycles.\<close>

definition timeline :: "delivery list \<Rightarrow> (nat \<times> event) list" where
  "timeline ds = sort_key fst (concat (map (\<lambda>(k, d). cycle_events k d) (enumerate 0 ds)))"

text \<open>The state of a mounted component at time \<open>T\<close>.\<close>

definition poll_session :: "nat \<Rightarrow> delivery list \<Rightarrow> watch_state" where
  "poll_session T ds = run (map snd (filter (\<lambda>e. fst e \<le> T) (timeline ds)))"

section \<open>The dashboard against the backend\<close>

text \<open>
  \<open>JSON.stringify\<close> (in \<open>res.json\<close>) followed by parsing: \<open>NaN\<close>, \<open>Infinity\<close> and
  \<open>-Infinity\<close> become \<open>null\<close>, an undefined property is dropped and reads back as
  undefined, a finite number is kept.
\<close>

fun wire_val :: "jsval \<Rightarrow> jsval" where
  "wire_val JNaN = JNull"
| "wire_val JPosInf = JNull"
| "wire_val JNegInf = JNull"
| "wire_val (JNum x) = JNum x"
| "wire_val JNull = JNull"
| "wire_val JUndefined = JUndefined"

definition wire_data :: "quote_data \<Rightarrow> quote_data" where
  "wire_data q =
     \<lparr>data_c = wire_val (data_c q), data_d = wire_val (data_d q), data_dp = wire_val (data_dp q)\<rparr>"

definition wire_entry :: "quote_entry \<Rightarrow> quote_entry" where
  "wire_entry q = \<lparr>symbol = symbol q, data = map_option wire_data (data q), error = error q\<rparr>"

text \<open>axios resolves on a 2xx status and throws on any other.\<close>

definition axios_post :: "http_response \<Rightarrow> axios_result" where
  "axios_post resp =
     (if 200 \<le> status resp \<and> status resp < 300
      then Response (map_option (map wire_entry) (quotes resp))
      else Threw)"

text \<open>
  One request of the dashboard to the deployed route: whether the backend has its client,
  how the provider behaves, and whether the response reaches the dashboard within the
  3 seconds of the axios timeout.
\<close>

record exchange =
  keyConfigured :: bool
  provider :: upstream_env
  delivered :: bool

definition request_quotes :: "stock list \<Rightarrow> exchange \<Rightarrow> axios_result" where
  "request_quotes watchlist x =
     (if delivered x
      then axios_post (fst (post_quotes (keyConfigured x) (Some (Array (poll_symbols watchlist))) (provider x)))
      else Threw)"

datatype session_event = Begin nat | Complete nat exchange | Teardown

fun realise :: "stock list \<Rightarrow> session_event \<Rightarrow> event" where
  "realise watchlist (Begin k) = Start k"
| "realise watchlist (Complete k x) = Arrive k (request_quotes watchlist x)"
| "realise watchlist Teardown = Unmount"

section \<open>Properties of the backend route\<close>

subsection \<open>The envelope follows the submitted array\<close>

lemma symbol_guard: "symbol (snd (guard p s u)) = s"
  by (simp add: guard_def on_reply_def timeout_entry_def no_price_entry_def
      split: upstream.split reply.split option.split)

lemma symbols_quotePromises: "map (symbol \<circ> snd) (quotePromises p env xs) = xs"
proof -
  have "(symbol \<circ> snd \<circ> (\<lambda>(i, s). guard p s (env i s))) = snd"
    by (rule ext) (simp add: symbol_guard case_prod_unfold)
  then have "map (symbol \<circ> snd) (quotePromises p env xs) = map snd (enumerate 0 xs)"
    by (simp add: quotePromises_def)
  then show ?thesis by simp
qed

lemma symbols_timeout: "map symbol (map timeout_entry xs) = xs"
  by (induction xs) (simp_all add: timeout_entry_def)

text \<open>
  C1 (as amended). The route does not de-duplicate. Whenever it answers with a \<open>quotes\<close>
  array (status 200 or 504 with a client, 503 without), the array has one entry per
  element of the submitted array, in the order of submission: the symbols of the entries
  are the submitted list itself. So a symbol submitted \<open>k\<close> times has \<open>k\<close> entries, and a
  symbol of a duplicate-free submission has exactly one, whatever the lookups return.
\<close>

theorem quotes_entry_per_submitted_element:
  "map_option (map symbol)
     (quotes (fst (quotes_handler perItemMs overallMs True (Some (Array (x # xs))) env)))
     = Some (x # xs)
   \<and> map_option (map symbol)
     (quotes (fst (quotes_handler perItemMs overallMs False (Some (Array xs)) env)))
     = Some xs"
proof -
  let ?ps = "quotePromises perItemMs env (x # xs)"
  have a: "map symbol (map snd ?ps) = x # xs"
    using symbols_quotePromises [of perItemMs env "x # xs"] by simp
  have b: "map symbol (map timeout_entry (x # xs)) = x # xs"
    by (rule symbols_timeout)
  have "map_option (map symbol)
     (quotes (fst (quotes_handler perItemMs overallMs True (Some (Array (x # xs))) env)))
     = Some (x # xs)"
    using a b by (simp add: quotes_handler_def race_def ok_def gateway_timeout_def del: list.map)
  moreover have "map_option (map symbol)
     (quotes (fst (quotes_handler perItemMs overallMs False (Some (Array xs)) env)))
     = Some xs"
    by (simp add: quotes_handler_def unavailable_def comp_def)
  ultimately show ?thesis by simp
qed

text \<open>
  C1 as stated fails: the array \<open>["AAPL", "AAPL"]\<close>, both lookups answered after 100 ms,
  gives an envelope with two entries for \<open>AAPL\<close>.
\<close>

theorem quotes_duplicates_counterexample:
  "quotes (fst (post_quotes True (Some (Array [''AAPL'', ''AAPL'']))
      (\<lambda>i s. Replies 100 (Payload (Some \<lparr>data_c = JNum 150, data_d = JNum 1, data_dp = JNum 2\<rparr>)))))
   = Some [\<lparr>symbol = ''AAPL'',
            data = Some \<lparr>data_c = JNum 150, data_d = JNum 1, data_dp = JNum 2\<rparr>, error = None\<rparr>,
           \<lparr>symbol = ''AAPL'',
            data = Some \<lparr>data_c = JNum 150, data_d = JNum 1, data_dp = JNum 2\<rparr>, error = None\<rparr>]"
  by (simp add: post_quotes_def quotes_handler_def race_def quotePromises_def guard_def
      on_reply_def join_time_def ok_def)

subsection \<open>The overall timer\<close>

lemma guard_time_le: "fst (guard p s u) \<le> p"
  by (simp add: guard_def split: upstream.split)

lemma join_time_le_iff: "join_time ps \<le> t \<longleftrightarrow> (\<forall>p \<in> set ps. fst p \<le> t)"
  by (induction ps) (simp_all add: join_time_def)

lemma join_time_quotePromises: "join_time (quotePromises p env xs) \<le> p"
  by (auto simp: join_time_le_iff quotePromises_def guard_time_le)

text \<open>
  With the deployed delays every promise has resolved after 2 seconds, so the join always
  wins the race and the deployed route never answers 504.
\<close>

lemma post_quotes_never_504: "status (fst (post_quotes client body env)) \<noteq> 504"
proof -
  have "join_time (quotePromises 2000 env xs) \<le> 3000" for xs
    using join_time_quotePromises [of 2000 env xs] by simp
  then show ?thesis
    by (simp add: post_quotes_def quotes_handler_def race_def unavailable_def internal_error_def
        bad_request_def ok_def split: option.split symbols_field.split)
qed

text \<open>
  A mixed batch on the deployed route: a quote after 100 ms, a lookup that never answers
  and an error after 50 ms. The join completes at 2000 ms and the status is 200.
\<close>

lemma mixed_batch_example:
  "post_quotes True (Some (Array [''AAPL'', ''MSFT'', ''BADSYM'']))
     (\<lambda>i s. if s = ''AAPL''
        then Replies 100 (Payload (Some \<lparr>data_c = JNum 150, data_d = JNum 1, data_dp = JNum (1 / 2)\<rparr>))
        else if s = ''MSFT'' then Silent
        else Replies 50 (Failed ''Not Found''))
   = (\<lparr>status = 200, body_error = None,
       quotes = Some
        [\<lparr>symbol = ''AAPL'',
          data = Some \<lparr>data_c = JNum 150, data_d = JNum 1, data_dp = JNum (1 / 2)\<rparr>, error = None\<rparr>,
         \<lparr>symbol = ''MSFT'', data = None, error = Some ''Request timeout''\<rparr>,
         \<lparr>symbol = ''BADSYM'', data = None, error = Some ''Not Found''\<rparr>]\<rparr>,
      [''AAPL'', ''MSFT'', ''BADSYM''])"
  by (simp add: post_quotes_def quotes_handler_def race_def quotePromises_def guard_def
      on_reply_def join_time_def ok_def timeout_entry_def)

text \<open>
  When every lookup would answer only after 3500 ms, each promise is resolved by its own
  timer at 2000 ms: the deployed route answers 200 with timeouts in every entry.
\<close>

lemma slow_provider_example:
  "fst (post_quotes True (Some (Array [''AAPL'', ''MSFT'']))
     (\<lambda>i s. Replies 3500 (Payload (Some \<lparr>data_c = JNum 150, data_d = JNum 1, data_dp = JNum 2\<rparr>))))
   = \<lparr>status = 200, body_error = None,
       quotes = Some
        [\<lparr>symbol = ''AAPL'', data = None, error = Some ''Request timeout''\<rparr>,
         \<lparr>symbol = ''MSFT'', data = None, error = Some ''Request timeout''\<rparr>]\<rparr>"
  by (simp add: post_quotes_def quotes_handler_def race_def quotePromises_def guard_def
      join_time_def ok_def timeout_entry_def)


subsection \<open>The empty array\<close>

text \<open>
  C3 (as amended). An empty symbol array is answered at once, without any upstream call,
  and with an error rather than an empty envelope: 400 \<open>Symbols array is required\<close> and no
  \<open>quotes\<close> when the client is configured, 503 with an empty \<open>quotes\<close> list when it is
  not.
\<close>

theorem empty_array_rejected_without_lookup:
  "snd (quotes_handler perItemMs overallMs client (Some (Array [])) env) = []
   \<and> fst (quotes_handler perItemMs overallMs client (Some (Array [])) env) =
     (if client
      then \<lparr>status = 400, body_error = Some ''Symbols array is required'', quotes = None\<rparr>
      else \<lparr>status = 503, body_error = Some ''Finnhub API key not configured'', quotes = Some []\<rparr>)"
  by (simp add: quotes_handler_def bad_request_def unavailable_def)

text \<open>C3 as stated fails: the deployed route answers the empty array with status 400.\<close>

theorem empty_array_is_error_counterexample:
  "fst (post_quotes True (Some (Array [])) (\<lambda>i s. Silent)) =
     \<lparr>status = 400, body_error = Some ''Symbols array is required'', quotes = None\<rparr>"
  by (simp add: post_quotes_def quotes_handler_def bad_request_def)

subsection \<open>Validation of a payload\<close>

text \<open>
  C5 (as amended). The callback tests the current price for truthiness, not for being a
  number. A payload is answered with \<open>No price data available\<close> if and only if the payload
  is absent or its \<open>c\<close> is not a non-zero number (absent, null, \<open>NaN\<close> or \<open>0\<close>); it is
  answered with a success carrying the payload as it came if and only if \<open>c\<close> is a
  non-zero number, finite or infinite.
\<close>

theorem on_reply_payload:
  "(error (on_reply s (Payload p)) = Some ''No price data available'')
      = (\<not> (\<exists>q. p = Some q \<and>
            ((\<exists>x. data_c q = JNum x \<and> x \<noteq> 0) \<or> data_c q = JPosInf \<or> data_c q = JNegInf)))
   \<and> (on_reply s (Payload p) = \<lparr>symbol = s, data = p, error = None\<rparr>)
      = (\<exists>q. p = Some q \<and>
            ((\<exists>x. data_c q = JNum x \<and> x \<noteq> 0) \<or> data_c q = JPosInf \<or> data_c q = JNegInf))"
proof (cases p)
  case None
  then show ?thesis by (simp add: on_reply_def no_price_entry_def)
next
  case (Some q)
  then show ?thesis
    by (cases "data_c q") (simp_all add: on_reply_def no_price_entry_def)
qed

text \<open>C5 as stated fails: a payload with the numeric current price \<open>0\<close> is rejected.\<close>

theorem zero_price_rejected_counterexample:
  "on_reply ''AAPL'' (Payload (Some \<lparr>data_c = JNum 0, data_d = JNum 0, data_dp = JNum 0\<rparr>))
     = \<lparr>symbol = ''AAPL'', data = None, error = Some ''No price data available''\<rparr>"
  by (simp add: on_reply_def no_price_entry_def)

subsection \<open>Status codes\<close>

text \<open>
  The status of every request, for any pair of delays: without a client 503, except 500
  when \<open>symbols\<close> is a truthy value that is not an array; with a client 500 when the
  request has no body, 400 when \<open>symbols\<close> is falsy, not an array or empty, 504 when the
  overall timer fires before the join, and 200 otherwise, whatever the entries hold.
\<close>

lemma quotes_status:
  "status (fst (quotes_handler perItemMs overallMs client body env)) =
     (if \<not> client then (if body = Some NonArray then 500 else 503)
      else (case body of
              None \<Rightarrow> 500
            | Some Falsy \<Rightarrow> 400
            | Some NonArray \<Rightarrow> 400
            | Some (Array xs) \<Rightarrow>
                if xs = [] then 400
                else if overallMs < join_time (quotePromises perItemMs env xs) then 504
                else 200))"
  by (simp add: quotes_handler_def race_def unavailable_def internal_error_def
        bad_request_def ok_def gateway_timeout_def split: option.split symbols_field.split)

text \<open>
  C6. The claim asks for 503 whenever the client is missing and for 400 whenever the
  symbol collection is missing, and each branch of the handler guards what the other
  forgets: the branch with a client tests \<open>Array.isArray\<close> (line 88), the branch without
  one takes \<open>req.body || { symbols: [] }\<close> (line 79). Where the guard is forgotten the
  handler throws and its \<open>catch\<close> answers 500: without a client, for the body
  \<open>{symbols: "AAPL"}\<close>, where \<open>(symbols || []).map\<close> is not a function; with a client, for
  a request without a body, where the destructuring of line 86 throws.
\<close>

theorem unguarded_requests_answer_500:
  "fst (post_quotes False (Some NonArray) env) =
     \<lparr>status = 500, body_error = Some ''Internal server error'', quotes = None\<rparr>
   \<and> fst (post_quotes True None env) =
     \<lparr>status = 500, body_error = Some ''Internal server error'', quotes = None\<rparr>"
  by (simp add: post_quotes_def quotes_handler_def internal_error_def)

subsection \<open>The symbols of the envelope, for any request\<close>

lemma quotes_symbols:
  assumes "quotes (fst (quotes_handler p ov client (Some (Array xs)) env)) = Some qs"
  shows "map symbol qs = xs"
proof (cases client)
  case False
  have c: "map symbol (map (\<lambda>s. \<lparr>symbol = s, data = None, error = Some ''API key not configured''\<rparr>) xs) = xs"
    by (induction xs) simp_all
  from assms False have "qs = map (\<lambda>s. \<lparr>symbol = s, data = None, error = Some ''API key not configured''\<rparr>) xs"
    by (simp add: quotes_handler_def unavailable_def)
  with c show ?thesis by simp
next
  case True
  show ?thesis
  proof (cases "xs = []")
    case True
    with assms \<open>client\<close> show ?thesis
      by (simp add: quotes_handler_def bad_request_def)
  next
    case False
    show ?thesis
    proof (cases "join_time (quotePromises p env xs) \<le> ov")
      case True
      with assms \<open>client\<close> False have "qs = map snd (quotePromises p env xs)"
        by (simp add: quotes_handler_def race_def ok_def)
      then show ?thesis
        using symbols_quotePromises [of p env xs] by simp
    next
      case False
      with assms \<open>client\<close> \<open>xs \<noteq> []\<close> have "qs = map timeout_entry xs"
        by (simp add: quotes_handler_def race_def gateway_timeout_def)
      then show ?thesis
        using symbols_timeout [of xs] by simp
    qed
  qed
qed

section \<open>Properties of the polling client\<close>

subsection \<open>The price map of one response\<close>

lemma forEach_body_alt:
  "forEach_body acc q =
     (if is_success q
      then ((fst acc)(symbol q \<mapsto> to_live_price (the (data q))), Suc (snd acc))
      else acc)"
  by (simp add: forEach_body_def is_success_def split: option.split)

lemma foldl_forEach_filter:
  "foldl forEach_body acc (filter is_success qs) = foldl forEach_body acc qs"
  by (induction qs arbitrary: acc) (simp_all add: forEach_body_alt)

lemma snd_foldl_forEach:
  "snd (foldl forEach_body acc qs) = snd acc + length (filter is_success qs)"
  by (induction qs arbitrary: acc) (simp_all add: forEach_body_alt)

lemma dom_foldl_forEach:
  "dom (fst (foldl forEach_body acc qs)) = dom (fst acc) \<union> symbol ` set (filter is_success qs)"
  by (induction qs arbitrary: acc) (auto simp: forEach_body_alt)

lemma lookup_foldl_forEach:
  "fst (foldl forEach_body acc qs) s = Some e \<Longrightarrow>
     fst acc s = Some e \<or>
     (\<exists>q \<in> set qs. is_success q \<and> symbol q = s \<and>
        (\<exists>qd. data q = Some qd \<and> truthy (data_c qd) \<and> e = to_live_price qd))"
proof (induction qs arbitrary: acc)
  case Nil
  then show ?case by simp
next
  case (Cons q qs)
  from Cons.prems have "fst (foldl forEach_body (forEach_body acc q) qs) s = Some e"
    by simp
  from Cons.IH [OF this] show ?case
    by (auto simp: forEach_body_alt is_success_def split: if_splits option.splits)
qed

lemma successes_count: "0 < snd (build_priceMap qs) \<longleftrightarrow> filter is_success qs \<noteq> []"
  by (simp add: build_priceMap_def snd_foldl_forEach)

lemma build_priceMap_filter: "build_priceMap (filter is_success qs) = build_priceMap qs"
  by (simp add: build_priceMap_def foldl_forEach_filter)

lemma finish_fetch_livePrices:
  "livePrices (finish_fetch r st) =
     (if isMounted st \<and> successes r \<noteq> [] then fst (build_priceMap (successes r))
      else livePrices st)"
proof (cases r)
  case Threw
  then show ?thesis by (simp add: finish_fetch_def successes_def)
next
  case (Response qo)
  show ?thesis
  proof (cases qo)
    case None
    with Response show ?thesis by (simp add: finish_fetch_def successes_def)
  next
    case (Some qs)
    with Response show ?thesis
      by (simp add: finish_fetch_def successes_def successes_count build_priceMap_filter Let_def)
  qed
qed

lemma finish_fetch_isMounted: "isMounted (finish_fetch r st) = isMounted st"
  by (simp add: finish_fetch_def Let_def split: axios_result.split option.split)

lemma begin_fetch_fields:
  "livePrices (begin_fetch st) = livePrices st" "isMounted (begin_fetch st) = isMounted st"
  by (simp_all add: begin_fetch_def)

lemma dom_build_priceMap: "dom (fst (build_priceMap qs)) = symbol ` set (filter is_success qs)"
  by (simp add: build_priceMap_def dom_foldl_forEach)

lemma lookup_build_priceMap:
  "fst (build_priceMap qs) s = Some e \<Longrightarrow>
     \<exists>q \<in> set qs. is_success q \<and> symbol q = s \<and>
        (\<exists>qd. data q = Some qd \<and> truthy (data_c qd) \<and> e = to_live_price qd)"
  using lookup_foldl_forEach [of "(Map.empty, 0)" qs s e] by (simp add: build_priceMap_def)

lemma successes_Response: "successes r \<noteq> [] \<Longrightarrow> \<exists>qs. r = Response (Some qs) \<and> successes r = filter is_success qs"
  by (auto simp: successes_def split: axios_result.splits option.splits)

lemma run_snoc: "run (evs @ [ev]) = step (run evs) ev"
  by (simp add: run_def)

lemma step_isMounted_Arrive: "isMounted (step st (Arrive k r)) = isMounted st"
  by (simp add: finish_fetch_isMounted)

subsection \<open>What a cycle does to the cache\<close>

text \<open>
  C4 (as amended). A cycle does not merge into the cache, it replaces it. If the
  component is mounted and at least one entry of the response is a success, the cache
  becomes the price map of that response, whose keys are exactly the symbols that
  succeeded in this cycle: every other symbol, one that failed in this cycle included,
  loses its entry. Otherwise (no success, no response, or unmounted) the whole cache is
  left as it was. Entries are only ever written from successes.
\<close>

theorem fetchLivePrices_cache:
  "livePrices (fetchLivePrices r st) =
     (if isMounted st \<and> successes r \<noteq> [] then fst (build_priceMap (successes r))
      else livePrices st)
   \<and> dom (fst (build_priceMap (successes r))) = symbol ` set (successes r)"
proof -
  have "filter is_success (successes r) = successes r"
    by (simp add: successes_def split: axios_result.split option.split)
  then have "dom (fst (build_priceMap (successes r))) = symbol ` set (successes r)"
    using dom_build_priceMap [of "successes r"] by simp
  then show ?thesis
    by (simp add: fetchLivePrices_def finish_fetch_livePrices begin_fetch_fields)
qed

text \<open>
  C4 as stated fails: after a first cycle has cached \<open>AAPL\<close>, a second cycle that returns a
  timeout for \<open>AAPL\<close> and a quote for \<open>MSFT\<close> leaves no entry for \<open>AAPL\<close>.
\<close>

theorem failed_symbol_loses_entry_counterexample:
  "livePrices (run [Start 1,
       Arrive 1 (Response (Some [\<lparr>symbol = ''AAPL'',
          data = Some \<lparr>data_c = JNum 150, data_d = JNum 1, data_dp = JNum 2\<rparr>, error = None\<rparr>]))])
     ''AAPL'' = Some \<lparr>price = JNum 150, change = JNum 1, percentChange = JNum 2, isDown = False\<rparr>
   \<and> livePrices (run [Start 1,
       Arrive 1 (Response (Some [\<lparr>symbol = ''AAPL'',
          data = Some \<lparr>data_c = JNum 150, data_d = JNum 1, data_dp = JNum 2\<rparr>, error = None\<rparr>])),
       Start 2,
       Arrive 2 (Response (Some [\<lparr>symbol = ''AAPL'', data = None, error = Some ''Request timeout''\<rparr>,
          \<lparr>symbol = ''MSFT'',
           data = Some \<lparr>data_c = JNum 300, data_d = JNum 3, data_dp = JNum 1\<rparr>, error = None\<rparr>]))])
     ''AAPL'' = None"
  by (simp add: run_def initial_def begin_fetch_def finish_fetch_def build_priceMap_def
      forEach_body_def truthy_str_def to_live_price_def js_or_def Let_def)

subsection \<open>From a valid payload to a live price\<close>

lemma js_or_wire_zero:
  "js_or (wire_val v) (JNum 0) = (case v of JNum x \<Rightarrow> JNum x | _ \<Rightarrow> JNum 0)"
  by (cases v) (simp_all add: js_or_def)

text \<open>
  C7 (as amended). A payload whose current price is a finite non-zero number goes through
  the callback of the route, over the wire and through the loop of the dashboard as a
  success. The route passes the payload on as it came; it is the dashboard that builds the
  live price, with the current price, and with the change and the percent change of the
  payload when they are finite numbers and zero when they are missing (absent, null,
  \<open>NaN\<close>, or an infinity, which the wire writes as null). Nothing fails and no field is
  left out.
\<close>

theorem finite_price_defaults_changes:
  assumes "data_c q = JNum x" and "x \<noteq> 0"
  shows "on_reply s (Payload (Some q)) = \<lparr>symbol = s, data = Some q, error = None\<rparr>
    \<and> is_success (wire_entry (on_reply s (Payload (Some q))))
    \<and> fst (build_priceMap [wire_entry (on_reply s (Payload (Some q)))]) s =
        Some \<lparr>price = JNum x,
              change = (case data_d q of JNum y \<Rightarrow> JNum y | _ \<Rightarrow> JNum 0),
              percentChange = (case data_dp q of JNum y \<Rightarrow> JNum y | _ \<Rightarrow> JNum 0),
              isDown = (case data_d q of JNum y \<Rightarrow> y < 0 | _ \<Rightarrow> False)\<rparr>"
proof -
  have o: "on_reply s (Payload (Some q)) = \<lparr>symbol = s, data = Some q, error = None\<rparr>"
    using assms by (simp add: on_reply_def)
  have e: "wire_entry \<lparr>symbol = s, data = Some q, error = None\<rparr> =
      \<lparr>symbol = s, data = Some (wire_data q), error = None\<rparr>"
    by (simp add: wire_entry_def)
  have neg: "js_negative (case data_d q of JNum y \<Rightarrow> JNum y | _ \<Rightarrow> JNum 0)
      = (case data_d q of JNum y \<Rightarrow> y < 0 | _ \<Rightarrow> False)"
    by (cases "data_d q") simp_all
  have p: "to_live_price (wire_data q) =
      \<lparr>price = JNum x,
       change = (case data_d q of JNum y \<Rightarrow> JNum y | _ \<Rightarrow> JNum 0),
       percentChange = (case data_dp q of JNum y \<Rightarrow> JNum y | _ \<Rightarrow> JNum 0),
       isDown = (case data_d q of JNum y \<Rightarrow> y < 0 | _ \<Rightarrow> False)\<rparr>"
    using assms by (simp add: to_live_price_def wire_data_def js_or_wire_zero neg) (simp add: js_or_def)
  have c: "is_success \<lparr>symbol = s, data = Some (wire_data q), error = None\<rparr>"
    using assms by (simp add: is_success_def truthy_str_def wire_data_def)
  show ?thesis
    using c p by (simp add: o e build_priceMap_def forEach_body_alt)
qed

theorem finite_price_defaults_changes_witness:
  "data_c \<lparr>data_c = JNum 150, data_d = JUndefined, data_dp = JUndefined\<rparr> = JNum 150
   \<and> (150::real) \<noteq> 0
   \<and> fst (build_priceMap [wire_entry (on_reply ''AAPL''
        (Payload (Some \<lparr>data_c = JNum 150, data_d = JUndefined, data_dp = JUndefined\<rparr>)))]) ''AAPL''
     = Some \<lparr>price = JNum 150, change = JNum 0, percentChange = JNum 0, isDown = False\<rparr>"
proof -
  have a: "data_c \<lparr>data_c = JNum 150, data_d = JUndefined, data_dp = JUndefined\<rparr> = JNum 150"
    by simp
  have b: "(150::real) \<noteq> 0" by simp
  from finite_price_defaults_changes [OF a b, of "''AAPL''"]
  have "fst (build_priceMap [wire_entry (on_reply ''AAPL''
        (Payload (Some \<lparr>data_c = JNum 150, data_d = JUndefined, data_dp = JUndefined\<rparr>)))]) ''AAPL''
     = Some \<lparr>price = JNum 150, change = JNum 0, percentChange = JNum 0, isDown = False\<rparr>"
    by (elim conjE) simp
  with a b show ?thesis by blast
qed

text \<open>
  C7 as stated fails for an infinite current price (the provider sends \<open>1e309\<close>): the route
  accepts the payload as a success, the wire writes the price as null, and the dashboard
  skips the entry, so no live price is produced at all.
\<close>

theorem infinite_price_is_dropped_counterexample:
  "truthy (data_c \<lparr>data_c = JPosInf, data_d = JUndefined, data_dp = JUndefined\<rparr>)
   \<and> on_reply ''AAPL'' (Payload (Some \<lparr>data_c = JPosInf, data_d = JUndefined, data_dp = JUndefined\<rparr>))
      = \<lparr>symbol = ''AAPL'',
         data = Some \<lparr>data_c = JPosInf, data_d = JUndefined, data_dp = JUndefined\<rparr>, error = None\<rparr>
   \<and> build_priceMap [wire_entry (on_reply ''AAPL''
        (Payload (Some \<lparr>data_c = JPosInf, data_d = JUndefined, data_dp = JUndefined\<rparr>)))]
      = (Map.empty, 0)"
  by (simp add: on_reply_def wire_entry_def wire_data_def build_priceMap_def forEach_body_def
      truthy_str_def)

subsection \<open>Every cached entry comes from a success\<close>

text \<open>
  C8. At every point of a session (after any sequence of cycle starts, arrivals and the
  unmount), a symbol has an entry in \<open>livePrices\<close> only if some response that has arrived
  holds a success for that symbol, with a truthy current price, and the entry is the live
  price of such a payload.
\<close>

theorem cache_entry_has_success:
  assumes "livePrices (run evs) s = Some e"
  shows "\<exists>k qs q qd. Arrive k (Response (Some qs)) \<in> set evs \<and> q \<in> set qs \<and> symbol q = s
           \<and> is_success q \<and> data q = Some qd \<and> truthy (data_c qd) \<and> e = to_live_price qd"
  using assms
proof (induction evs arbitrary: e rule: rev_induct)
  case Nil
  then show ?case by (simp add: run_def initial_def)
next
  case (snoc ev evs)
  show ?case
  proof (cases ev)
    case (Start k)
    with snoc.prems have "livePrices (run evs) s = Some e"
      by (simp add: run_snoc begin_fetch_fields)
    from snoc.IH [OF this] show ?thesis by auto
  next
    case Unmount
    with snoc.prems have "livePrices (run evs) s = Some e"
      by (simp add: run_snoc)
    from snoc.IH [OF this] show ?thesis by auto
  next
    case (Arrive k r)
    show ?thesis
    proof (cases "isMounted (run evs) \<and> successes r \<noteq> []")
      case False
      with Arrive snoc.prems have "livePrices (run evs) s = Some e"
        by (simp add: run_snoc finish_fetch_livePrices)
      from snoc.IH [OF this] show ?thesis by auto
    next
      case True
      then obtain qs where r: "r = Response (Some qs)" "successes r = filter is_success qs"
        using successes_Response by blast
      from True Arrive snoc.prems have "fst (build_priceMap (successes r)) s = Some e"
        by (simp add: run_snoc finish_fetch_livePrices)
      then have "fst (build_priceMap qs) s = Some e"
        using r by (simp add: build_priceMap_filter)
      from lookup_build_priceMap [OF this] obtain q qd where
        "q \<in> set qs" "is_success q" "symbol q = s" "data q = Some qd" "truthy (data_c qd)"
        "e = to_live_price qd" by blast
      with Arrive r show ?thesis by auto
    qed
  qed
qed

theorem cache_entry_has_success_witness:
  "livePrices (run [Start 1,
       Arrive 1 (Response (Some [\<lparr>symbol = ''AAPL'',
          data = Some \<lparr>data_c = JNum 150, data_d = JNum 1, data_dp = JNum 2\<rparr>, error = None\<rparr>]))])
     ''AAPL'' = Some \<lparr>price = JNum 150, change = JNum 1, percentChange = JNum 2, isDown = False\<rparr>
   \<and> (\<exists>k qs q qd.
        Arrive k (Response (Some qs)) \<in> set [Start 1,
          Arrive 1 (Response (Some [\<lparr>symbol = ''AAPL'',
            data = Some \<lparr>data_c = JNum 150, data_d = JNum 1, data_dp = JNum 2\<rparr>, error = None\<rparr>]))]
        \<and> q \<in> set qs \<and> symbol q = ''AAPL'' \<and> is_success q \<and> data q = Some qd
        \<and> truthy (data_c qd)
        \<and> \<lparr>price = JNum 150, change = JNum 1, percentChange = JNum 2, isDown = False\<rparr>
            = to_live_price qd)"
proof -
  let ?evs = "[Start 1,
       Arrive 1 (Response (Some [\<lparr>symbol = ''AAPL'',
          data = Some \<lparr>data_c = JNum 150, data_d = JNum 1, data_dp = JNum 2\<rparr>, error = None\<rparr>]))]"
  have h: "livePrices (run ?evs) ''AAPL''
      = Some \<lparr>price = JNum 150, change = JNum 1, percentChange = JNum 2, isDown = False\<rparr>"
    by (simp add: run_def initial_def begin_fetch_def finish_fetch_def build_priceMap_def
      forEach_body_def truthy_str_def to_live_price_def js_or_def Let_def)
  from cache_entry_has_success [OF h] h show ?thesis by blast
qed

subsection \<open>A late result is never applied\<close>

lemma cycle_events_late:
  "3000 \<le> t \<Longrightarrow> cycle_events k (Delivers t r) = cycle_events k (Delivers t r')"
  by (simp add: cycle_events_def await_post_def)

lemma map_enumerate_update:
  assumes "i < length ds" and "f (i, d') = f (i, ds ! i)"
  shows "map f (enumerate 0 (ds[i := d'])) = map f (enumerate 0 ds)"
proof (rule nth_equalityI)
  show "length (map f (enumerate 0 (ds[i := d']))) = length (map f (enumerate 0 ds))"
    by simp
next
  fix n assume "n < length (map f (enumerate 0 (ds[i := d'])))"
  then have n: "n < length ds" by simp
  show "map f (enumerate 0 (ds[i := d'])) ! n = map f (enumerate 0 ds) ! n"
  proof (cases "n = i")
    case True
    with n assms(2) show ?thesis by (simp add: nth_enumerate_eq)
  next
    case False
    with n show ?thesis by (simp add: nth_enumerate_eq)
  qed
qed

lemma await_post_time: "fst (await_post d) \<le> 3000"
  by (simp add: await_post_def split: delivery.split)

lemma cycle_events_times:
  "e \<in> set (cycle_events k d) \<Longrightarrow> 10000 * k \<le> fst e \<and> fst e \<le> 10000 * k + 3000"
  using await_post_time [of d] by (auto simp: cycle_events_def)

lemma enumerate_events_lower:
  "e \<in> set (concat (map (\<lambda>(k, d). cycle_events k d) (enumerate n ds))) \<Longrightarrow> 10000 * n \<le> fst e"
proof (induction ds arbitrary: n)
  case Nil
  then show ?case by simp
next
  case (Cons d ds)
  from Cons.prems consider "e \<in> set (cycle_events n d)"
    | "e \<in> set (concat (map (\<lambda>(k, d). cycle_events k d) (enumerate (Suc n) ds)))"
    by auto
  then show ?case
  proof cases
    case 1
    then show ?thesis using cycle_events_times by blast
  next
    case 2
    from Cons.IH [OF this] show ?thesis by simp
  qed
qed

lemma sorted_enumerate_events:
  "sorted (map fst (concat (map (\<lambda>(k, d). cycle_events k d) (enumerate n ds))))"
proof (induction ds arbitrary: n)
  case Nil
  then show ?case by simp
next
  case (Cons d ds)
  let ?rest = "concat (map (\<lambda>(k, d). cycle_events k d) (enumerate (Suc n) ds))"
  have a: "sorted (map fst (cycle_events n d))"
    by (simp add: cycle_events_def)
  have b: "sorted (map fst ?rest)" by (rule Cons.IH)
  have c: "fst x \<le> fst y" if "x \<in> set (cycle_events n d)" "y \<in> set ?rest" for x y
  proof -
    from that(1) have "fst x \<le> 10000 * n + 3000" using cycle_events_times by blast
    moreover from that(2) have "10000 * Suc n \<le> fst y" by (rule enumerate_events_lower)
    ultimately show ?thesis by simp
  qed
  have d: "\<forall>x \<in> set (map fst (cycle_events n d)). \<forall>y \<in> set (map fst ?rest). x \<le> y"
  proof (intro ballI)
    fix x y
    assume "x \<in> set (map fst (cycle_events n d))" and "y \<in> set (map fst ?rest)"
    then obtain ex ey where "ex \<in> set (cycle_events n d)" "x = fst ex" "ey \<in> set ?rest" "y = fst ey"
      unfolding set_map by blast
    with c show "x \<le> y" by simp
  qed
  have "sorted (map fst (cycle_events n d) @ map fst ?rest)"
    unfolding sorted_append using a b d by blast
  moreover have "map fst (concat (map (\<lambda>(k, d). cycle_events k d) (enumerate n (d # ds))))
      = map fst (cycle_events n d) @ map fst ?rest"
    by simp
  ultimately show ?case by (simp only:)
qed

text \<open>
  The cycles of a session never overlap: a request ends at most 3000 ms after its start
  and the next cycle starts 10000 ms after it, so the events of a session come cycle by
  cycle.
\<close>

lemma timeline_sequential:
  "map snd (timeline ds) =
     concat (map (\<lambda>(k, d). [Start k, Arrive k (snd (await_post d))]) (enumerate 0 ds))"
proof -
  have "timeline ds = concat (map (\<lambda>(k, d). cycle_events k d) (enumerate 0 ds))"
    unfolding timeline_def by (rule sort_key_id_if_sorted) (rule sorted_enumerate_events)
  moreover have "map snd (concat (map (\<lambda>(k, d). cycle_events k d) (enumerate n ds))) =
     concat (map (\<lambda>(k, d). [Start k, Arrive k (snd (await_post d))]) (enumerate n ds))" for n
    by (induction ds arbitrary: n) (simp_all add: cycle_events_def)
  ultimately show ?thesis by simp
qed

text \<open>
  C9. Take two cycles of a session, the second started after the first, such that the
  second has completed (and merged what it received) before the result of the first would
  arrive. Then the request of the first cycle was abandoned 3000 ms after its start: its
  \<open>await\<close> threw and its late result is never seen by the client. At every time the state
  of the session is the same whatever that late result holds, so it never overwrites what
  the second cycle merged.
\<close>

theorem late_result_is_discarded:
  assumes "i < j"
    and "j < length ds"
    and "ds ! i = Delivers t r"
    and "10000 * j + fst (await_post (ds ! j)) < 10000 * i + t"
  shows "await_post (ds ! i) = (3000, Threw)
       \<and> poll_session T (ds[i := Delivers t r']) = poll_session T ds"
proof -
  from assms(1) have "10000 * i + 10000 \<le> 10000 * j" by simp
  with assms(4) have late: "3000 \<le> t" by simp
  then have a: "await_post (ds ! i) = (3000, Threw)"
    using assms(3) by (simp add: await_post_def)
  have i: "i < length ds" using assms(1,2) by simp
  have "cycle_events i (Delivers t r') = cycle_events i (ds ! i)"
    using late assms(3) cycle_events_late [of t i r' r] by simp
  then have "(\<lambda>(k, d). cycle_events k d) (i, Delivers t r') = (\<lambda>(k, d). cycle_events k d) (i, ds ! i)"
    by simp
  from map_enumerate_update [OF i this]
  have "timeline (ds[i := Delivers t r']) = timeline ds"
    by (simp only: timeline_def)
  with a show ?thesis by (simp add: poll_session_def)
qed

theorem late_result_is_discarded_witness:
  "(0::nat) < 1
   \<and> 1 < length [Delivers 15000 (Response (Some [\<lparr>symbol = ''AAPL'',
          data = Some \<lparr>data_c = JNum 150, data_d = JNum 1, data_dp = JNum 2\<rparr>, error = None\<rparr>])),
        Delivers 100 (Response (Some [\<lparr>symbol = ''AAPL'',
          data = Some \<lparr>data_c = JNum 155, data_d = JNum 6, data_dp = JNum 4\<rparr>, error = None\<rparr>]))]
   \<and> 10000 * 1 + fst (await_post (Delivers 100 (Response (Some [\<lparr>symbol = ''AAPL'',
          data = Some \<lparr>data_c = JNum 155, data_d = JNum 6, data_dp = JNum 4\<rparr>, error = None\<rparr>]))))
       < 10000 * 0 + (15000::nat)
   \<and> await_post (Delivers 15000 (Response (Some [\<lparr>symbol = ''AAPL'',
          data = Some \<lparr>data_c = JNum 150, data_d = JNum 1, data_dp = JNum 2\<rparr>, error = None\<rparr>])))
       = (3000, Threw)
   \<and> poll_session 20000 [Delivers 15000 Threw,
        Delivers 100 (Response (Some [\<lparr>symbol = ''AAPL'',
          data = Some \<lparr>data_c = JNum 155, data_d = JNum 6, data_dp = JNum 4\<rparr>, error = None\<rparr>]))]
     = poll_session 20000 [Delivers 15000 (Response (Some [\<lparr>symbol = ''AAPL'',
          data = Some \<lparr>data_c = JNum 150, data_d = JNum 1, data_dp = JNum 2\<rparr>, error = None\<rparr>])),
        Delivers 100 (Response (Some [\<lparr>symbol = ''AAPL'',
          data = Some \<lparr>data_c = JNum 155, data_d = JNum 6, data_dp = JNum 4\<rparr>, error = None\<rparr>]))]
   \<and> livePrices (poll_session 20000 [Delivers 15000 (Response (Some [\<lparr>symbol = ''AAPL'',
          data = Some \<lparr>data_c = JNum 150, data_d = JNum 1, data_dp = JNum 2\<rparr>, error = None\<rparr>])),
        Delivers 100 (Response (Some [\<lparr>symbol = ''AAPL'',
          data = Some \<lparr>data_c = JNum 155, data_d = JNum 6, data_dp = JNum 4\<rparr>, error = None\<rparr>]))])
       ''AAPL''
     = Some \<lparr>price = JNum 155, change = JNum 6, percentChange = JNum 4, isDown = False\<rparr>"
proof -
  let ?r1 = "Response (Some [\<lparr>symbol = ''AAPL'',
          data = Some \<lparr>data_c = JNum 150, data_d = JNum 1, data_dp = JNum 2\<rparr>, error = None\<rparr>])"
  let ?r2 = "Response (Some [\<lparr>symbol = ''AAPL'',
          data = Some \<lparr>data_c = JNum 155, data_d = JNum 6, data_dp = JNum 4\<rparr>, error = None\<rparr>])"
  let ?ds = "[Delivers 15000 ?r1, Delivers 100 ?r2]"
  have a: "(0::nat) < 1" by simp
  have b: "1 < length ?ds" by simp
  have c: "?ds ! 0 = Delivers 15000 ?r1" by simp
  have d: "10000 * 1 + fst (await_post (?ds ! 1)) < 10000 * 0 + (15000::nat)"
    by (simp add: await_post_def)
  have e: "livePrices (poll_session 20000 ?ds) ''AAPL''
     = Some \<lparr>price = JNum 155, change = JNum 6, percentChange = JNum 4, isDown = False\<rparr>"
    by (simp add: poll_session_def timeline_def cycle_events_def await_post_def run_def
        initial_def begin_fetch_def finish_fetch_def build_priceMap_def forEach_body_def
        truthy_str_def to_live_price_def js_or_def Let_def)
  from late_result_is_discarded [OF a b c d, of 20000 Threw] d e show ?thesis
    by simp
qed

subsection \<open>At most ten symbols\<close>

text \<open>
  \<open>js_Set\<close> keeps the first occurrence of each name and drops the later ones, as the
  insertion order of a JavaScript \<open>Set\<close> does.
\<close>

lemma foldl_set_add_Cons:
  "foldl set_add (x # seen) xs = x # foldl set_add seen (filter (\<lambda>y. y \<noteq> x) xs)"
proof (induction xs arbitrary: seen)
  case Nil
  then show ?case by simp
next
  case (Cons y ys)
  show ?case
  proof (cases "y = x")
    case True
    then show ?thesis using Cons.IH [of seen] by (simp add: set_add_def)
  next
    case False
    then have "set_add (x # seen) y = x # set_add seen y"
      by (simp add: set_add_def)
    then show ?thesis using False Cons.IH [of "set_add seen y"] by simp
  qed
qed

lemma js_Set_Cons: "js_Set (x # xs) = x # js_Set (filter (\<lambda>y. y \<noteq> x) xs)"
proof -
  have "js_Set (x # xs) = foldl set_add [x] xs"
    by (simp add: js_Set_def set_add_def)
  then show ?thesis
    by (simp add: foldl_set_add_Cons js_Set_def)
qed

lemma poll_symbols_example:
  "poll_symbols (map (\<lambda>n. \<lparr>name = n\<rparr>)
     [''INFY'', ''ONGC'', ''INFY'', ''TCS'', ''KPITTECH'', ''QUICKHEAL'', ''WIPRO'', ''RELIANCE'',
      ''ONGC'', ''HUL'', ''SBIN'', ''ITC'', ''BHARTIARTL'', ''HDFCBANK''])
   = [''INFY'', ''ONGC'', ''TCS'', ''KPITTECH'', ''QUICKHEAL'', ''WIPRO'', ''RELIANCE'', ''HUL'',
      ''SBIN'', ''ITC'']"
  by (simp add: poll_symbols_def js_Set_def set_add_def)

lemma set_add_props:
  "distinct seen \<Longrightarrow> distinct (set_add seen x)" "set (set_add seen x) = insert x (set seen)"
  by (auto simp: set_add_def)

lemma foldl_set_add:
  "distinct seen \<Longrightarrow> distinct (foldl set_add seen xs) \<and> set (foldl set_add seen xs) = set seen \<union> set xs"
  by (induction xs arbitrary: seen) (simp_all add: set_add_props)

lemma js_Set_props: "distinct (js_Set xs)" "set (js_Set xs) = set xs"
  using foldl_set_add [of "[]" xs] by (simp_all add: js_Set_def)

lemma wire_entry_symbol: "symbol (wire_entry q) = symbol q"
  by (simp add: wire_entry_def)

lemma successes_request_quotes:
  "symbol ` set (successes (request_quotes wl x)) \<subseteq> set (poll_symbols wl)"
proof (cases "successes (request_quotes wl x) = []")
  case True
  then show ?thesis by simp
next
  case False
  then obtain qs where r: "request_quotes wl x = Response (Some qs)"
    using successes_Response by blast
  then have "axios_post (fst (post_quotes (keyConfigured x)
       (Some (Array (poll_symbols wl))) (provider x))) = Response (Some qs)"
    by (simp add: request_quotes_def split: if_splits)
  then obtain rs where rs: "quotes (fst (post_quotes (keyConfigured x)
       (Some (Array (poll_symbols wl))) (provider x))) = Some rs" "qs = map wire_entry rs"
    by (auto simp: axios_post_def split: if_splits)
  from rs(1) have "map symbol rs = poll_symbols wl"
    unfolding post_quotes_def by (rule quotes_symbols)
  moreover have "map symbol qs = map symbol rs"
    using rs(2) by (simp add: wire_entry_symbol comp_def)
  ultimately have "symbol ` set qs = set (poll_symbols wl)"
    by (metis list.set_map)
  then show ?thesis
    using r by (auto simp: successes_def)
qed

lemma dom_step_realise:
  assumes "dom (livePrices st) \<subseteq> set (poll_symbols wl)"
  shows "dom (livePrices (step st (realise wl ev))) \<subseteq> set (poll_symbols wl)"
proof (cases ev)
  case (Begin k)
  with assms show ?thesis by (simp add: begin_fetch_fields)
next
  case Teardown
  with assms show ?thesis by simp
next
  case (Complete k x)
  let ?r = "request_quotes wl x"
  have "filter is_success (successes ?r) = successes ?r"
    by (simp add: successes_def split: axios_result.split option.split)
  then have "dom (fst (build_priceMap (successes ?r))) = symbol ` set (successes ?r)"
    using dom_build_priceMap [of "successes ?r"] by simp
  then have new: "dom (fst (build_priceMap (successes ?r))) \<subseteq> set (poll_symbols wl)"
    using successes_request_quotes [of wl x] by simp
  have "livePrices (step st (realise wl ev)) = livePrices st
      \<or> livePrices (step st (realise wl ev)) = fst (build_priceMap (successes ?r))"
    using Complete by (simp add: finish_fetch_livePrices)
  then show ?thesis
    using assms new by (elim disjE) simp_all
qed

lemma dom_foldl_realise:
  "dom (livePrices st) \<subseteq> set (poll_symbols wl) \<Longrightarrow>
   dom (livePrices (foldl step st (map (realise wl) evs))) \<subseteq> set (poll_symbols wl)"
proof (induction evs arbitrary: st)
  case Nil
  then show ?case by simp
next
  case (Cons ev evs)
  have "dom (livePrices (step st (realise wl ev))) \<subseteq> set (poll_symbols wl)"
    using Cons.prems by (rule dom_step_realise)
  from Cons.IH [OF this] show ?case by simp
qed

text \<open>
  C10. The symbols of a cycle are the first ten of the de-duplicated names of the
  watchlist: at most ten, pairwise different, followed in the de-duplicated list by the
  names that are never requested. Against the deployed route, whatever the provider and
  the network do, no name beyond the tenth ever has an entry in \<open>livePrices\<close>.
\<close>

theorem poll_requests_at_most_ten:
  "length (poll_symbols wl) \<le> 10
   \<and> distinct (poll_symbols wl)
   \<and> poll_symbols wl @ drop 10 (js_Set (map name wl)) = js_Set (map name wl)
   \<and> set (js_Set (map name wl)) = name ` set wl
   \<and> dom (livePrices (run (map (realise wl) evs))) \<inter> set (drop 10 (js_Set (map name wl))) = {}"
proof -
  let ?l = "js_Set (map name wl)"
  have d: "distinct ?l" by (rule js_Set_props)
  have "distinct (take 10 ?l @ drop 10 ?l)" using d by simp
  then have disj: "set (take 10 ?l) \<inter> set (drop 10 ?l) = {}"
    by (simp only: distinct_append)
  have "dom (livePrices initial) \<subseteq> set (poll_symbols wl)"
    by (simp add: initial_def)
  then have "dom (livePrices (run (map (realise wl) evs))) \<subseteq> set (poll_symbols wl)"
    unfolding run_def by (rule dom_foldl_realise)
  then have "dom (livePrices (run (map (realise wl) evs))) \<subseteq> set (take 10 ?l)"
    by (simp only: poll_symbols_def)
  with disj have e: "dom (livePrices (run (map (realise wl) evs))) \<inter> set (drop 10 ?l) = {}"
    by blast
  have a: "length (poll_symbols wl) \<le> 10" by (simp add: poll_symbols_def)
  have b: "distinct (poll_symbols wl)" using d by (simp add: poll_symbols_def)
  have c: "poll_symbols wl @ drop 10 ?l = ?l" by (simp add: poll_symbols_def)
  have f: "set ?l = name ` set wl" by (simp add: js_Set_props)
  from a b c f e show ?thesis by blast
qed

end
